theory Spec2Isabelle
  imports Complex_Main
begin

section \<open>The retry controller of \<^verbatim>\<open>src/retryit.ts\<close>\<close>

text \<open>
  The library is one function, \<^verbatim>\<open>retry(task, options)\<close>: a loop that calls the task until
  it succeeds, a retry condition rejects its error or the retry budget is spent, and an
  optional race of that loop against a timer. The embedding below follows the source line by
  line. What the source takes from its surroundings is made explicit:
  \<^item> the task is the sequence of the promises its calls return, indexed by the number of the
    call (from 0); a promise is fulfilled or rejected after some time, or stays pending;
  \<^item> \<^verbatim>\<open>Math.random()\<close> is the sequence of its results;
  \<^item> time is a logical clock in milliseconds, and a timer elapses exactly after the time it
    was set to (at once when that is not positive); what a runtime does to delays below one
    millisecond or above \<open>2^31 - 1\<close> milliseconds is not modelled;
  \<^item> \<^verbatim>\<open>retries\<close> is an integer or \<^verbatim>\<open>NaN\<close>; delays and times are exact reals (no rounding);
  \<^item> the calls the loop makes are recorded, in order, in a trace.
  The lines written to the console are left out, but for the one effect they have on the
  control flow: line 49 reads \<^verbatim>\<open>error.message\<close>, which throws a \<^verbatim>\<open>TypeError\<close> when the
  task has rejected with \<^verbatim>\<open>null\<close> or \<^verbatim>\<open>undefined\<close>.
\<close>

subsection \<open>Values, promises and options\<close>

text \<open>A value that is thrown, or that a promise is rejected with.\<close>

datatype 'e thrown = Undefined | Null | Object 'e

fun nullish :: "'e thrown \<Rightarrow> bool" where
  "nullish Undefined = True"
| "nullish Null = True"
| "nullish (Object x) = False"

text \<open>
  How a promise settles: \<open>Resolves v d\<close> is fulfilled with \<open>v\<close> after \<open>d\<close> milliseconds,
  \<open>Rejects e d\<close> is rejected with \<open>e\<close> after \<open>d\<close> milliseconds, \<open>Pending\<close> never settles.
\<close>

datatype ('e, 'a) promise = Resolves 'a real | Rejects "'e thrown" real | Pending

type_synonym ('e, 'a) task = "nat \<Rightarrow> ('e, 'a) promise"

text \<open>
  The number given as \<^verbatim>\<open>retries\<close>: an integer, or \<^verbatim>\<open>NaN\<close>, with which every comparison is
  false; an absent \<^verbatim>\<open>retries\<close> (\<^verbatim>\<open>undefined\<close>) compares as \<^verbatim>\<open>NaN\<close> does. Numbers that are
  not integers and the infinities are left out: the specification's retry budget is an
  integer. The comparisons are those of the source, \<^verbatim>\<open>attempt <= retries\<close> (line 29) and
  \<^verbatim>\<open>attempt > retries\<close> (line 40), and those of the claims, \<^verbatim>\<open>retries < 0\<close> and
  \<^verbatim>\<open>retries >= 0\<close>.
\<close>

datatype number = NaN | Number int

fun number_le :: "int \<Rightarrow> number \<Rightarrow> bool" where
  "number_le a NaN = False"
| "number_le a (Number r) = (a \<le> r)"

fun number_gt :: "int \<Rightarrow> number \<Rightarrow> bool" where
  "number_gt a NaN = False"
| "number_gt a (Number r) = (a > r)"


fun number_nonnegative :: "number \<Rightarrow> bool" where
  "number_nonnegative NaN = False"
| "number_nonnegative (Number r) = (0 \<le> r)"

text \<open>
  The interface \<^verbatim>\<open>RetryOptions\<close>. An optional field is an \<open>option\<close>. A callback returns what
  its call returns or throws: \<^verbatim>\<open>onRetry\<close> returns \<open>None\<close> or throws \<open>Some x\<close>,
  \<^verbatim>\<open>retryCondition\<close> returns \<open>Inr b\<close> or throws \<open>Inl x\<close>. The fallback is called at most once
  in the source, so it is the promise its call returns.
\<close>

record ('e, 'a) RetryOptions =
  retries :: number
  delay :: real
  exponentialBackoff :: "bool option"
  onRetry :: "(int \<Rightarrow> 'e thrown \<Rightarrow> 'e thrown option) option"
  retryCondition :: "('e thrown \<Rightarrow> 'e thrown + bool) option"
  timeout :: "real option"
  fallback :: "('e, 'a) promise option"

text \<open>The defaults of the destructuring at lines 15 to 23.\<close>

definition exponentialBackoff_of :: "('e, 'a) RetryOptions \<Rightarrow> bool" where
  "exponentialBackoff_of opts = (case exponentialBackoff opts of None \<Rightarrow> False | Some b \<Rightarrow> b)"

definition retryCondition_of :: "('e, 'a) RetryOptions \<Rightarrow> 'e thrown \<Rightarrow> 'e thrown + bool" where
  "retryCondition_of opts = (case retryCondition opts of None \<Rightarrow> (\<lambda>error. Inr True) | Some f \<Rightarrow> f)"

subsection \<open>State, trace and exits\<close>

datatype 'e event =
    TaskCall
  | ConditionCall "'e thrown"
  | OnRetryCall int "'e thrown"
  | Wait real
  | FallbackCall

text \<open>
  The two variables of the closure, \<^verbatim>\<open>attempt\<close> and \<^verbatim>\<open>currentDelay\<close>, and the state of the
  surroundings: how often the task and \<^verbatim>\<open>Math.random\<close> have been called, the clock, the trace.
\<close>

record 'e state =
  attempt :: int
  currentDelay :: real
  calls :: nat
  draws :: nat
  clock :: real
  trace :: "'e event list"

text \<open>
  The ways the promise of \<^verbatim>\<open>retry\<close> settles, one for each \<^verbatim>\<open>return\<close> and \<^verbatim>\<open>throw\<close>:
  line 32 (\<open>Success\<close>), line 36 (\<open>NonRetryable\<close>), line 44 (\<open>FallbackValue\<close>, or
  \<open>FallbackError\<close> when the fallback's promise is rejected), line 46 (\<open>Exhausted\<close>), line 63
  (\<open>Unexpected\<close>), line 68 (\<open>TimedOut\<close>), and the two exceptions that leave the
  \<^verbatim>\<open>catch\<close> block with no \<^verbatim>\<open>throw\<close> of its own: a callback that throws (lines 34 and 51,
  \<open>CallbackThrew\<close>) and the \<^verbatim>\<open>TypeError\<close> of line 49 (\<open>MessageTypeError\<close>).
\<close>

datatype ('e, 'a) exit =
    Success 'a
  | NonRetryable "'e thrown"
  | FallbackValue 'a
  | FallbackError "'e thrown"
  | Exhausted "'e thrown"
  | CallbackThrew "'e thrown"
  | MessageTypeError
  | Unexpected
  | TimedOut

text \<open>
  What the caller of \<^verbatim>\<open>retry\<close> gets: a value, or a rejection with a value that came from the
  task or a callback (\<open>Reason\<close>), with an \<^verbatim>\<open>Error\<close> that \<^verbatim>\<open>retry\<close> made itself, or with the
  runtime's \<^verbatim>\<open>TypeError\<close>.
\<close>

datatype 'e rejection = Reason "'e thrown" | Error string | TypeError

fun surfaced :: "('e, 'a) exit \<Rightarrow> 'e rejection + 'a" where
  "surfaced (Success v) = Inr v"
| "surfaced (NonRetryable e) = Inl (Reason e)"
| "surfaced (FallbackValue v) = Inr v"
| "surfaced (FallbackError e) = Inl (Reason e)"
| "surfaced (Exhausted e) = Inl (Reason e)"
| "surfaced (CallbackThrew e) = Inl (Reason e)"
| "surfaced MessageTypeError = Inl TypeError"
| "surfaced Unexpected = Inl (Error ''Retry failed unexpectedly'')"
| "surfaced TimedOut = Inl (Error ''Retry timeout exceeded'')"

text \<open>
  One turn of the \<^verbatim>\<open>while\<close> loop either settles the promise (\<open>Done\<close>; \<open>Done None\<close> when it
  awaits a promise that stays pending) or goes round again.
\<close>

datatype ('e, 'a) step = Done "('e, 'a) exit option" "'e state" | Again "'e state"

definition record_event :: "'e event \<Rightarrow> 'e state \<Rightarrow> 'e state" where
  "record_event ev s = s\<lparr>trace := trace s @ [ev]\<rparr>"

definition elapse :: "real \<Rightarrow> 'e state \<Rightarrow> 'e state" where
  "elapse d s = s\<lparr>clock := clock s + max 0 d\<rparr>"

subsection \<open>The loop\<close>

text \<open>The \<^verbatim>\<open>catch\<close> block, lines 33 to 61.\<close>

definition catch_block ::
  "(nat \<Rightarrow> real) \<Rightarrow> ('e, 'a) RetryOptions \<Rightarrow> 'e thrown \<Rightarrow> 'e state \<Rightarrow> ('e, 'a) step" where
  "catch_block random opts error s =
    (let s1 = record_event (ConditionCall error) s in
     case retryCondition_of opts error of
       Inl x \<Rightarrow> Done (Some (CallbackThrew x)) s1
     | Inr retryable \<Rightarrow>
        if \<not> retryable then Done (Some (NonRetryable error)) s1
        else
          let s2 = s1\<lparr>attempt := attempt s1 + 1\<rparr> in
          if number_gt (attempt s2) (retries opts) then
            (case fallback opts of
               Some fb \<Rightarrow>
                 (let s3 = record_event FallbackCall s2 in
                  case fb of
                    Resolves v d \<Rightarrow> Done (Some (FallbackValue v)) (elapse d s3)
                  | Rejects x d \<Rightarrow> Done (Some (FallbackError x)) (elapse d s3)
                  | Pending \<Rightarrow> Done None s3)
             | None \<Rightarrow> Done (Some (Exhausted error)) s2)
          else if nullish error then Done (Some MessageTypeError) s2
          else
            (case (case onRetry opts of
                     Some hook \<Rightarrow> (hook (attempt s2) error, record_event (OnRetryCall (attempt s2) error) s2)
                   | None \<Rightarrow> (None, s2)) of
               (Some x, s3) \<Rightarrow> Done (Some (CallbackThrew x)) s3
             | (None, s3) \<Rightarrow>
                 (let s4 = elapse (currentDelay s3) (record_event (Wait (currentDelay s3)) s3) in
                  if exponentialBackoff_of opts then
                    Again (s4\<lparr>currentDelay := currentDelay s4 * 2 + random (draws s4) * 100,
                               draws := draws s4 + 1\<rparr>)
                  else Again s4)))"

text \<open>The body of the loop, lines 30 to 61: the \<^verbatim>\<open>try\<close> block awaits the task.\<close>

definition iteration ::
  "('e, 'a) task \<Rightarrow> (nat \<Rightarrow> real) \<Rightarrow> ('e, 'a) RetryOptions \<Rightarrow> 'e state \<Rightarrow> ('e, 'a) step" where
  "iteration task random opts s =
    (let s1 = record_event TaskCall (s\<lparr>calls := calls s + 1\<rparr>) in
     case task (calls s) of
       Resolves v d \<Rightarrow> Done (Some (Success v)) (elapse d s1)
     | Rejects error d \<Rightarrow> catch_block random opts error (elapse d s1)
     | Pending \<Rightarrow> Done None s1)"

lemma iteration_Again_attempt:
  "iteration task random opts s = Again s' \<Longrightarrow>
    attempt s' = attempt s + 1 \<and> \<not> number_gt (attempt s') (retries opts)"
  by (auto simp: iteration_def catch_block_def record_event_def elapse_def Let_def
      split: promise.splits sum.splits option.splits if_splits prod.splits)

text \<open>The function \<^verbatim>\<open>retryPromise\<close>, lines 28 to 64.\<close>

function retryPromise ::
  "('e, 'a) task \<Rightarrow> (nat \<Rightarrow> real) \<Rightarrow> ('e, 'a) RetryOptions \<Rightarrow> 'e state
    \<Rightarrow> ('e, 'a) exit option \<times> 'e state" where
  "retryPromise task random opts s =
    (if number_le (attempt s) (retries opts) then
       (case iteration task random opts s of
          Done r s' \<Rightarrow> (r, s')
        | Again s' \<Rightarrow> retryPromise task random opts s')
     else (Some Unexpected, s))"
  by pat_completeness auto
termination
  by (relation "measure (\<lambda>(task, random, opts, s).
        case retries opts of NaN \<Rightarrow> 0 | Number r \<Rightarrow> nat (r + 1 - attempt s))")
    (auto dest: iteration_Again_attempt split: number.splits)

declare retryPromise.simps [simp del]

subsection \<open>The race against the timer\<close>

text \<open>
  \<^verbatim>\<open>Promise.race\<close> of the loop's promise, which settles at the time \<open>settled_at\<close> unless it
  stays pending, and of the promise that the timer rejects. The timer wins when it is due
  before the loop's promise settles. It also wins when the two are due at the same time
  after the start: the timer is armed at line 67, before the loop starts at line 70, and of
  two timers that are due together the one armed first fires first. A loop that settles at
  once, at time 0, settles before any timer can fire.
\<close>

definition race :: "('e, 'a) exit option \<Rightarrow> real \<Rightarrow> real \<Rightarrow> ('e, 'a) exit option" where
  "race p settled_at t =
    (case p of
       None \<Rightarrow> Some TimedOut
     | Some x \<Rightarrow>
         if max 0 t < settled_at \<or> (max 0 t = settled_at \<and> 0 < settled_at) then Some TimedOut
         else Some x)"

text \<open>
  A run of \<^verbatim>\<open>retry\<close>: how its promise settles, the timer that was armed, and the state in
  which the loop ends. The source does not cancel the loop when the timer wins, so the final
  state is that of the whole loop in every case.
\<close>

record ('e, 'a) run =
  outcome :: "('e, 'a) exit option"
  timer :: "real option"
  final :: "'e state"

definition initial :: "('e, 'a) RetryOptions \<Rightarrow> 'e state" where
  "initial opts = \<lparr>attempt = 0, currentDelay = delay opts, calls = 0, draws = 0, clock = 0, trace = []\<rparr>"

text \<open>
  The function \<^verbatim>\<open>retry\<close>, lines 11 to 74. \<^verbatim>\<open>if (timeout)\<close> is false for an absent
  timeout and for 0.
\<close>

definition retry ::
  "('e, 'a) task \<Rightarrow> (nat \<Rightarrow> real) \<Rightarrow> ('e, 'a) RetryOptions \<Rightarrow> ('e, 'a) run" where
  "retry task random opts =
    (case retryPromise task random opts (initial opts) of
       (r, s) \<Rightarrow>
         (case timeout opts of
            Some t \<Rightarrow>
              if t \<noteq> 0 then \<lparr>outcome = race r (clock s) t, timer = Some t, final = s\<rparr>
              else \<lparr>outcome = r, timer = None, final = s\<rparr>
          | None \<Rightarrow> \<lparr>outcome = r, timer = None, final = s\<rparr>))"

subsection \<open>Reading a trace\<close>

text \<open>
  The calls of \<^verbatim>\<open>onRetry\<close> with their arguments, the delays of the waits and the errors given
  to \<^verbatim>\<open>retryCondition\<close>, each in the order of the trace. The calls of the task and of the
  fallback are counted with \<open>count_list\<close>.
\<close>

fun hook_call :: "'e event \<Rightarrow> (int \<times> 'e thrown) list" where
  "hook_call (OnRetryCall n e) = [(n, e)]"
| "hook_call ev = []"

definition hook_calls :: "'e event list \<Rightarrow> (int \<times> 'e thrown) list" where
  "hook_calls tr = concat (map hook_call tr)"

fun wait_of :: "'e event \<Rightarrow> real list" where
  "wait_of (Wait d) = [d]"
| "wait_of ev = []"

definition waits :: "'e event list \<Rightarrow> real list" where
  "waits tr = concat (map wait_of tr)"

fun condition_call :: "'e event \<Rightarrow> 'e thrown list" where
  "condition_call (ConditionCall e) = [e]"
| "condition_call ev = []"

definition condition_calls :: "'e event list \<Rightarrow> 'e thrown list" where
  "condition_calls tr = concat (map condition_call tr)"

fun rejection_of :: "('e, 'a) promise \<Rightarrow> 'e thrown option" where
  "rejection_of (Rejects e d) = Some e"
| "rejection_of p = None"

text \<open>
  The call of index \<open>k\<close> of the task (the attempt \<open>k + 1\<close>) is one that the loop retries when
  there is budget left: its promise is rejected with an error that is not \<^verbatim>\<open>null\<close> or
  \<^verbatim>\<open>undefined\<close>, \<^verbatim>\<open>retryCondition\<close> returns true for the error, and \<^verbatim>\<open>onRetry\<close>, when there is
  one, returns from its call with the attempt number \<open>k + 1\<close>.
\<close>

definition is_retried :: "('e, 'a) task \<Rightarrow> ('e, 'a) RetryOptions \<Rightarrow> nat \<Rightarrow> bool" where
  "is_retried task opts k =
    (case task k of
       Rejects e d \<Rightarrow>
         retryCondition_of opts e = Inr True \<and> \<not> nullish e \<and>
         (case onRetry opts of None \<Rightarrow> True | Some hook \<Rightarrow> hook (int k + 1) e = None)
     | Resolves v d \<Rightarrow> False
     | Pending \<Rightarrow> False)"

text \<open>The events of one retried turn of the loop, and what a trace of \<open>m\<close> such turns holds.\<close>

definition round_events :: "('e, 'a) RetryOptions \<Rightarrow> int \<Rightarrow> 'e thrown \<Rightarrow> real \<Rightarrow> 'e event list" where
  "round_events opts n e d =
     [TaskCall, ConditionCall e] @ (case onRetry opts of None \<Rightarrow> [] | Some hook \<Rightarrow> [OnRetryCall n e]) @ [Wait d]"

definition retried_trace ::
  "('e, 'a) task \<Rightarrow> ('e, 'a) RetryOptions \<Rightarrow> nat \<Rightarrow> nat \<Rightarrow> 'e event list \<Rightarrow> bool" where
  "retried_trace task opts c m tr =
    (count_list tr TaskCall = m \<and> count_list tr FallbackCall = 0 \<and>
     map Some (condition_calls tr) = map (\<lambda>i. rejection_of (task (c + i))) [0..<m] \<and>
     length (waits tr) = m \<and>
     map (\<lambda>(n, e). (n, Some e)) (hook_calls tr) =
       (case onRetry opts of
          None \<Rightarrow> []
        | Some hook \<Rightarrow> map (\<lambda>i. (int (c + i) + 1, rejection_of (task (c + i)))) [0..<m]))"

subsection \<open>The delays of the exponential backoff, as the specification states them\<close>

text \<open>
  The first \<open>n\<close> delays of a run with exponential backoff, in the words of the specification:
  the first delay is the base delay \<open>d\<close>, and each later one is twice the one before plus
  a jitter, the next random number times 100. The loop's waits are compared with this list.
\<close>

fun backoff_delays :: "(nat \<Rightarrow> real) \<Rightarrow> real \<Rightarrow> nat \<Rightarrow> nat \<Rightarrow> real list" where
  "backoff_delays random d k 0 = []"
| "backoff_delays random d k (Suc n) = d # backoff_delays random (d * 2 + random k * 100) (Suc k) n"

subsection \<open>Two readings of the specification\<close>

text \<open>
  The number of failures of a run that retryCondition accepted, read off the trace: the
  attempt counter is compared with it.
\<close>

definition accepted :: "('e, 'a) RetryOptions \<Rightarrow> 'e event list \<Rightarrow> nat" where
  "accepted opts tr = length (filter (\<lambda>e. retryCondition_of opts e = Inr True) (condition_calls tr))"

text \<open>
  The number of failures of a run that were followed by another attempt, which is what the
  specification says the attempt counter counts: each of them, and nothing else, is followed
  by one wait, and every call of the task but the first comes after one
  (lemma \<open>calls_follow_waits\<close>).
\<close>

definition retried_failures :: "'e event list \<Rightarrow> nat" where
  "retried_failures tr = length (waits tr)"


subsection \<open>Example runs\<close>

text \<open>
  The tasks and options of the repository's tests: a task that always throws, one that fails
  twice and then succeeds, one that throws an error the retry condition does not accept, one
  that takes 200 milliseconds, and the options \<^verbatim>\<open>{ retries: 3, delay: 100 }\<close>. Besides them,
  a task whose promise is rejected with \<^verbatim>\<open>undefined\<close>, always or on its first call only, a
  fallback whose promise is rejected and an \<^verbatim>\<open>onRetry\<close> that throws.
\<close>

definition always_fails :: "(string, string) task" where
  "always_fails k = Rejects (Object ''Persistent error'') 0"

definition fails_twice :: "(string, string) task" where
  "fails_twice k = (if k < 2 then Rejects (Object ''Transient error'') 0 else Resolves ''Success'' 0)"

definition non_retriable :: "(string, string) task" where
  "non_retriable k = Rejects (Object ''Non-retriable error'') 0"

definition rejects_undefined :: "(string, string) task" where
  "rejects_undefined k = Rejects Undefined 0"

definition undefined_then_success :: "(string, string) task" where
  "undefined_then_success k = (if k = 0 then Rejects Undefined 0 else Resolves ''Success'' 0)"

definition slow_task :: "(string, string) task" where
  "slow_task k = Resolves ''Done'' 200"

definition only_retriable :: "string thrown \<Rightarrow> string thrown + bool" where
  "only_retriable error = Inr (error = Object ''Retriable error'')"

definition quiet_hook :: "int \<Rightarrow> string thrown \<Rightarrow> string thrown option" where
  "quiet_hook n error = None"

definition failing_fallback :: "(string, string) promise" where
  "failing_fallback = Rejects (Object ''Fallback down'') 0"

definition throwing_hook :: "int \<Rightarrow> string thrown \<Rightarrow> string thrown option" where
  "throwing_hook n error = Some (Object ''Hook failed'')"

definition no_jitter :: "nat \<Rightarrow> real" where
  "no_jitter k = 0"

definition half_jitter :: "nat \<Rightarrow> real" where
  "half_jitter k = 1 / 2"

definition plain :: "(string, string) RetryOptions" where
  "plain = \<lparr>retries = Number 3, delay = 100, exponentialBackoff = None, onRetry = None,
     retryCondition = None, timeout = None, fallback = None\<rparr>"

section \<open>Properties of the loop\<close>

subsection \<open>Traces\<close>

lemma projections_Nil [simp]: "hook_calls [] = []" "waits [] = []" "condition_calls [] = []"
  by (simp_all add: hook_calls_def waits_def condition_calls_def)

lemma hook_calls_append [simp]: "hook_calls (xs @ ys) = hook_calls xs @ hook_calls ys"
  by (simp add: hook_calls_def)
lemma waits_append [simp]: "waits (xs @ ys) = waits xs @ waits ys"
  by (simp add: waits_def)
lemma condition_calls_append [simp]: "condition_calls (xs @ ys) = condition_calls xs @ condition_calls ys"
  by (simp add: condition_calls_def)

lemma round_events_proj:
  "count_list (round_events opts n e d) TaskCall = 1"
  "count_list (round_events opts n e d) FallbackCall = 0"
  "condition_calls (round_events opts n e d) = [e]"
  "waits (round_events opts n e d) = [d]"
  "hook_calls (round_events opts n e d) = (case onRetry opts of None \<Rightarrow> [] | Some hook \<Rightarrow> [(n, e)])"
  by (simp_all add: round_events_def condition_calls_def waits_def hook_calls_def split: option.splits)

subsection \<open>One turn of the loop\<close>

lemma iteration_retried:
  assumes "is_retried task opts (calls s)" and "attempt s = int (calls s)"
    and "retries opts = Number R" and "attempt s < R"
  shows "\<exists>s' e d. task (calls s) = Rejects e d \<and> iteration task random opts s = Again s' \<and> attempt s' = attempt s + 1 \<and> calls s' = calls s + 1
     \<and> trace s' = trace s @ round_events opts (attempt s + 1) e (currentDelay s)"
  using assms
  by (auto simp: is_retried_def iteration_def catch_block_def record_event_def elapse_def Let_def round_events_def
      split: promise.splits sum.splits option.splits if_splits prod.splits)

lemma iteration_calls:
  "iteration task random opts s = Done r s' \<Longrightarrow> calls s' = calls s + 1"
  "iteration task random opts s = Again s' \<Longrightarrow> calls s' = calls s + 1"
  by (auto simp: iteration_def catch_block_def record_event_def elapse_def Let_def
      split: promise.splits sum.splits option.splits if_splits prod.splits)

lemma iteration_exhausted:
  assumes "task (calls s) = Rejects e d" and "retryCondition_of opts e = Inr True"
    and "retries opts = Number R" and "attempt s = R"
  shows "iteration task random opts s =
    (case fallback opts of
       None \<Rightarrow> Done (Some (Exhausted e))
         (s\<lparr>attempt := attempt s + 1, calls := calls s + 1, clock := clock s + max 0 d,
            trace := trace s @ [TaskCall, ConditionCall e]\<rparr>)
     | Some fb \<Rightarrow> Done (case fb of Resolves v t \<Rightarrow> Some (FallbackValue v)
                         | Rejects x t \<Rightarrow> Some (FallbackError x) | Pending \<Rightarrow> None)
         (s\<lparr>attempt := attempt s + 1, calls := calls s + 1,
            clock := clock s + max 0 d +
              (case fb of Resolves v t \<Rightarrow> max 0 t | Rejects x t \<Rightarrow> max 0 t | Pending \<Rightarrow> 0),
            trace := trace s @ [TaskCall, ConditionCall e, FallbackCall]\<rparr>))"
  using assms
  by (simp add: iteration_def catch_block_def record_event_def elapse_def Let_def
      split: promise.splits option.splits)

lemma iteration_success:
  assumes "task (calls s) = Resolves v d"
  shows "iteration task random opts s = Done (Some (Success v))
    (s\<lparr>calls := calls s + 1, clock := clock s + max 0 d, trace := trace s @ [TaskCall]\<rparr>)"
  using assms by (simp add: iteration_def record_event_def elapse_def Let_def)

lemma iteration_non_retryable:
  assumes "task (calls s) = Rejects e d" and "retryCondition_of opts e = Inr False"
  shows "iteration task random opts s = Done (Some (NonRetryable e))
    (s\<lparr>calls := calls s + 1, clock := clock s + max 0 d, trace := trace s @ [TaskCall, ConditionCall e]\<rparr>)"
  using assms by (simp add: iteration_def catch_block_def record_event_def elapse_def Let_def)

subsection \<open>Turns that are retried\<close>

lemma retried_prefix:
  assumes "\<forall>i<m. is_retried task opts (calls s + i)"
    and "attempt s = int (calls s)"
    and "retries opts = Number R" and "attempt s + int m \<le> R"
  shows "\<exists>s' tr. retryPromise task random opts s = retryPromise task random opts s' \<and>
    attempt s' = attempt s + int m \<and> calls s' = calls s + m \<and>
    trace s' = trace s @ tr \<and> retried_trace task opts (calls s) m tr"
  using assms
proof (induction m)
  case 0
  show ?case
    by (rule exI [of _ s], rule exI [of _ "[]"]) (simp add: retried_trace_def split: option.splits)
next
  case (Suc m)
  from Suc.prems have "\<forall>i<m. is_retried task opts (calls s + i)" and "attempt s + int m \<le> R"
    by simp_all
  with Suc.IH Suc.prems(2,3) obtain s1 tr where
    run: "retryPromise task random opts s = retryPromise task random opts s1" and
    att: "attempt s1 = attempt s + int m" and cal: "calls s1 = calls s + m" and
    tr: "trace s1 = trace s @ tr" and facts: "retried_trace task opts (calls s) m tr"
    by blast
  from Suc.prems(1) cal have r: "is_retried task opts (calls s1)" by simp
  from att cal Suc.prems(2) have eq: "attempt s1 = int (calls s1)" by simp
  from att Suc.prems(4) have lt: "attempt s1 < R" by simp
  from iteration_retried [OF r eq Suc.prems(3) lt, where random = random] obtain s2 e d where
    rej: "task (calls s1) = Rejects e d" and
    it: "iteration task random opts s1 = Again s2" and
    att2: "attempt s2 = attempt s1 + 1" and cal2: "calls s2 = calls s1 + 1" and
    tr2: "trace s2 = trace s1 @ round_events opts (attempt s1 + 1) e (currentDelay s1)"
    by blast
  from it lt Suc.prems(3) have step: "retryPromise task random opts s1 = retryPromise task random opts s2"
    by (simp add: retryPromise.simps [of task random opts s1])
  let ?tr = "tr @ round_events opts (attempt s1 + 1) e (currentDelay s1)"
  have "retried_trace task opts (calls s) (Suc m) ?tr"
    using facts rej cal eq
    by (simp add: retried_trace_def round_events_proj split: option.splits)
  with run step att att2 cal cal2 tr tr2 show ?case
    by (intro exI [of _ s2] exI [of _ ?tr]) simp
qed

lemma retried_from_initial:
  assumes "\<forall>i<m. is_retried task opts i" and "retries opts = Number R" and "int m \<le> R"
  shows "\<exists>s. retryPromise task random opts (initial opts) = retryPromise task random opts s \<and>
    attempt s = int m \<and> calls s = m \<and> retried_trace task opts 0 m (trace s)"
  using retried_prefix [where m = m and task = task and opts = opts and s = "initial opts"
      and random = random and R = R] assms
  by (simp add: initial_def)

lemma retried_trace_lengths:
  assumes "retried_trace task opts c m tr"
  shows "length (condition_calls tr) = m" and "length (waits tr) = m"
    and "length (hook_calls tr) = (case onRetry opts of None \<Rightarrow> 0 | Some hook \<Rightarrow> m)"
proof -
  from assms have "length (map Some (condition_calls tr)) = length (map (\<lambda>i. rejection_of (task (c + i))) [0..<m])"
    unfolding retried_trace_def by (elim conjE) (rule arg_cong [where f = length])
  then show "length (condition_calls tr) = m" by simp
  from assms show "length (waits tr) = m"
    by (simp add: retried_trace_def)
  from assms have "length (map (\<lambda>(n, e). (n, Some e)) (hook_calls tr)) =
      length (case onRetry opts of None \<Rightarrow> []
        | Some hook \<Rightarrow> map (\<lambda>i. (int (c + i) + 1, rejection_of (task (c + i)))) [0..<m])"
    unfolding retried_trace_def by (elim conjE) (rule arg_cong [where f = length])
  then show "length (hook_calls tr) = (case onRetry opts of None \<Rightarrow> 0 | Some hook \<Rightarrow> m)"
    by (simp split: option.splits)
qed

subsection \<open>The run and the loop\<close>

lemma retry_final: "final (retry task random opts) = snd (retryPromise task random opts (initial opts))"
  by (simp add: retry_def split: prod.splits option.splits)

lemma retry_outcome:
  "outcome (retry task random opts) \<noteq> Some TimedOut \<Longrightarrow>
    outcome (retry task random opts) = fst (retryPromise task random opts (initial opts))"
  by (auto simp: retry_def race_def split: prod.splits option.splits if_splits)

lemma number_le_next:
  "number_le a r \<Longrightarrow> \<not> number_gt b r \<Longrightarrow> number_le b r"
  by (cases r) simp_all

lemma calls_bound:
  "retryPromise task random opts s = (r, s') \<Longrightarrow> retries opts = Number R \<Longrightarrow> attempt s \<le> R + 1 \<Longrightarrow>
    int (calls s') \<le> int (calls s) + (R + 1 - attempt s)"
proof (induction task random opts s rule: retryPromise.induct)
  case (1 task random opts s)
  show ?case
  proof (cases "attempt s \<le> R")
    case False
    with "1.prems" show ?thesis
      by (simp add: retryPromise.simps [of task random opts s])
  next
    case True
    with "1.prems"(2) have le: "number_le (attempt s) (retries opts)"
      by simp
    show ?thesis
    proof (cases "iteration task random opts s")
      case (Done r1 s1)
      with True "1.prems" iteration_calls(1) [OF Done] show ?thesis
        by (simp add: retryPromise.simps [of task random opts s])
    next
      case (Again s1)
      from iteration_Again_attempt [OF Again] "1.prems"(2)
      have a: "attempt s1 = attempt s + 1" "attempt s1 \<le> R"
        by simp_all
      from True Again "1.prems" have "retryPromise task random opts s1 = (r, s')"
        by (simp add: retryPromise.simps [of task random opts s])
      from "1.IH" [OF le Again this "1.prems"(2)] a iteration_calls(2) [OF Again] show ?thesis
        by simp
    qed
  qed
qed

subsection \<open>The waits of a run with exponential backoff\<close>

lemma iteration_waits:
  "iteration task random opts s = Done r s' \<Longrightarrow> waits (trace s') = waits (trace s)"
  "exponentialBackoff_of opts \<Longrightarrow> iteration task random opts s = Again s' \<Longrightarrow>
     waits (trace s') = waits (trace s) @ [currentDelay s] \<and>
     currentDelay s' = currentDelay s * 2 + random (draws s) * 100 \<and> draws s' = Suc (draws s)"
  by (auto simp: iteration_def catch_block_def record_event_def elapse_def Let_def waits_def
      split: promise.splits sum.splits option.splits if_splits prod.splits)

lemma waits_backoff:
  "retryPromise task random opts s = (r, s') \<Longrightarrow> exponentialBackoff_of opts \<Longrightarrow>
    \<exists>n. waits (trace s') = waits (trace s) @ backoff_delays random (currentDelay s) (draws s) n"
proof (induction task random opts s rule: retryPromise.induct)
  case (1 task random opts s)
  show ?case
  proof (cases "number_le (attempt s) (retries opts)")
    case False
    with "1.prems" have "s' = s"
      by (simp add: retryPromise.simps [of task random opts s])
    then have "waits (trace s') = waits (trace s) @ backoff_delays random (currentDelay s) (draws s) 0"
      by simp
    then show ?thesis ..
  next
    case True
    show ?thesis
    proof (cases "iteration task random opts s")
      case (Done r1 s1)
      with True "1.prems" have "s' = s1"
        by (simp add: retryPromise.simps [of task random opts s])
      with iteration_waits(1) [OF Done]
      have "waits (trace s') = waits (trace s) @ backoff_delays random (currentDelay s) (draws s) 0"
        by simp
      then show ?thesis ..
    next
      case (Again s1)
      from True Again "1.prems" have "retryPromise task random opts s1 = (r, s')"
        by (simp add: retryPromise.simps [of task random opts s])
      from "1.IH" [OF True Again this "1.prems"(2)] obtain n where
        "waits (trace s') = waits (trace s1) @ backoff_delays random (currentDelay s1) (draws s1) n"
        ..
      with iteration_waits(2) [OF "1.prems"(2) Again]
      have "waits (trace s') = waits (trace s) @ backoff_delays random (currentDelay s) (draws s) (Suc n)"
        by simp
      then show ?thesis ..
    qed
  qed
qed

lemma length_backoff_delays [simp]: "length (backoff_delays random d k n) = n"
  by (induction n arbitrary: d k) simp_all

lemma backoff_delays_lower:
  assumes "\<forall>j. 0 \<le> random j" and "0 \<le> d"
  shows "\<forall>x \<in> set (backoff_delays random d k n). d \<le> x"
  using assms(2)
proof (induction n arbitrary: d k)
  case 0
  show ?case by simp
next
  case (Suc n)
  from assms(1) have "0 \<le> random k" by blast
  with Suc.prems have le: "d \<le> d * 2 + random k * 100" by simp
  with Suc.prems have "0 \<le> d * 2 + random k * 100" by simp
  from Suc.IH [OF this, of "Suc k"] le show ?case
    by fastforce
qed

lemma backoff_delays_sorted:
  assumes "\<forall>j. 0 \<le> random j" and "0 \<le> d"
  shows "sorted (backoff_delays random d k n)"
  using assms(2)
proof (induction n arbitrary: d k)
  case 0
  show ?case by simp
next
  case (Suc n)
  from assms(1) have "0 \<le> random k" by blast
  with Suc.prems have le: "d \<le> d * 2 + random k * 100" and nn: "0 \<le> d * 2 + random k * 100"
    by simp_all
  from backoff_delays_lower [OF assms(1) nn, of "Suc k" n] le
  have "\<forall>x \<in> set (backoff_delays random (d * 2 + random k * 100) (Suc k) n). d \<le> x"
    by fastforce
  with Suc.IH [OF nn, of "Suc k"] show ?case
    by simp
qed

lemma backoff_delays_bounds:
  assumes "\<forall>j. 0 \<le> random j \<and> random j < 1" and "i < n"
  shows "d * 2 ^ i \<le> backoff_delays random d k n ! i \<and>
    backoff_delays random d k n ! i + 100 \<le> (d + 100) * 2 ^ i"
  using assms(2)
proof (induction n arbitrary: d k i)
  case 0
  then show ?case by simp
next
  case (Suc n)
  show ?case
  proof (cases i)
    case 0
    then show ?thesis by simp
  next
    case (Suc i')
    with Suc.prems have "i' < n" by simp
    from Suc.IH [OF this, of "d * 2 + random k * 100" "Suc k"]
    have lo: "(d * 2 + random k * 100) * 2 ^ i' \<le> backoff_delays random (d * 2 + random k * 100) (Suc k) n ! i'"
      and hi: "backoff_delays random (d * 2 + random k * 100) (Suc k) n ! i' + 100
        \<le> (d * 2 + random k * 100 + 100) * 2 ^ i'"
      by simp_all
    from assms(1) have r: "0 \<le> random k" "random k < 1" by simp_all
    have p: "(0::real) \<le> 2 ^ i'" by simp
    from r have "d * 2 \<le> d * 2 + random k * 100" by simp
    from mult_right_mono [OF this p] have "d * 2 * 2 ^ i' \<le> (d * 2 + random k * 100) * 2 ^ i'" .
    note lo1 = this
    have eq: "d * 2 ^ Suc i' = d * 2 * 2 ^ i'" "(d + 100) * 2 ^ Suc i' = (d + 100) * 2 * 2 ^ i'"
      by simp_all
    from lo1 lo have lo': "d * 2 ^ Suc i' \<le> backoff_delays random (d * 2 + random k * 100) (Suc k) n ! i'"
      unfolding eq by (rule order_trans)
    from r have "d * 2 + random k * 100 + 100 \<le> (d + 100) * 2" by simp
    from mult_right_mono [OF this p]
    have "(d * 2 + random k * 100 + 100) * 2 ^ i' \<le> (d + 100) * 2 * 2 ^ i'" .
    with hi have hi': "backoff_delays random (d * 2 + random k * 100) (Suc k) n ! i' + 100
        \<le> (d + 100) * 2 ^ Suc i'"
      unfolding eq by (rule order_trans)
    from lo' hi' Suc show ?thesis by simp
  qed
qed

lemma backoff_delays_step:
  "Suc i < n \<Longrightarrow> backoff_delays random d k n ! Suc i =
     backoff_delays random d k n ! i * 2 + random (k + i) * 100"
proof (induction n arbitrary: d k i)
  case 0
  then show ?case by simp
next
  case (Suc n)
  show ?case
  proof (cases i)
    case 0
    with Suc.prems obtain m where "n = Suc m" by (cases n) auto
    with 0 show ?thesis by simp
  next
    case (Suc i')
    with Suc.prems have "Suc i' < n" by simp
    from Suc.IH [OF this, of "d * 2 + random k * 100" "Suc k"] Suc show ?thesis
      by simp
  qed
qed

subsection \<open>The attempt counter\<close>

lemma iteration_accepted:
  "iteration task random opts s = Done r s' \<Longrightarrow>
     attempt s' + int (accepted opts (trace s)) = attempt s + int (accepted opts (trace s'))"
  "iteration task random opts s = Again s' \<Longrightarrow>
     attempt s' + int (accepted opts (trace s)) = attempt s + int (accepted opts (trace s'))"
  by (auto simp: iteration_def catch_block_def record_event_def elapse_def Let_def accepted_def
      condition_calls_def
      split: promise.splits sum.splits option.splits if_splits prod.splits)

lemma retryPromise_accepted:
  "retryPromise task random opts s = (r, s') \<Longrightarrow>
    attempt s' + int (accepted opts (trace s)) = attempt s + int (accepted opts (trace s'))"
proof (induction task random opts s rule: retryPromise.induct)
  case (1 task random opts s)
  show ?case
  proof (cases "number_le (attempt s) (retries opts)")
    case False
    with "1.prems" show ?thesis
      by (simp add: retryPromise.simps [of task random opts s])
  next
    case True
    show ?thesis
    proof (cases "iteration task random opts s")
      case (Done r1 s1)
      with True "1.prems" iteration_accepted(1) [OF Done] show ?thesis
        by (simp add: retryPromise.simps [of task random opts s])
    next
      case (Again s1)
      from True Again "1.prems" have "retryPromise task random opts s1 = (r, s')"
        by (simp add: retryPromise.simps [of task random opts s])
      from "1.IH" [OF True Again this] iteration_accepted(2) [OF Again] show ?thesis
        by simp
    qed
  qed
qed

lemma iteration_retried_failures:
  "iteration task random opts s = Done r s' \<Longrightarrow>
     calls s' = calls s + 1 \<and> retried_failures (trace s') = retried_failures (trace s)"
  "iteration task random opts s = Again s' \<Longrightarrow>
     calls s' = calls s + 1 \<and> retried_failures (trace s') = retried_failures (trace s) + 1"
  by (auto simp: iteration_def catch_block_def record_event_def elapse_def Let_def
      retried_failures_def waits_def
      split: promise.splits sum.splits option.splits if_splits prod.splits)

lemma retryPromise_retried_failures:
  "retryPromise task random opts s = (r, s') \<Longrightarrow> number_le (attempt s) (retries opts) \<Longrightarrow>
    calls s' + retried_failures (trace s) = calls s + retried_failures (trace s') + 1"
proof (induction task random opts s rule: retryPromise.induct)
  case (1 task random opts s)
  show ?case
  proof (cases "iteration task random opts s")
    case (Done r1 s1)
    with "1.prems" iteration_retried_failures(1) [OF Done] show ?thesis
      by (simp add: retryPromise.simps [of task random opts s])
  next
    case (Again s1)
    from Again "1.prems" have "retryPromise task random opts s1 = (r, s')"
      by (simp add: retryPromise.simps [of task random opts s])
    moreover from iteration_Again_attempt [OF Again] "1.prems"(2)
    have "number_le (attempt s1) (retries opts)"
      by (auto intro: number_le_next)
    ultimately show ?thesis
      using "1.IH" [OF "1.prems"(2) Again] iteration_retried_failures(2) [OF Again]
      by simp
  qed
qed

lemma calls_follow_waits:
  assumes "number_nonnegative (retries opts)"
  shows "calls (final (retry task random opts)) =
    retried_failures (trace (final (retry task random opts))) + 1"
proof -
  obtain r s' where run: "retryPromise task random opts (initial opts) = (r, s')"
    by (cases "retryPromise task random opts (initial opts)")
  from assms have "number_le (attempt (initial opts)) (retries opts)"
    by (cases "retries opts") (simp_all add: initial_def)
  from retryPromise_retried_failures [OF run this] have "calls s' = retried_failures (trace s') + 1"
    by (simp add: initial_def retried_failures_def)
  with run show ?thesis
    by (simp add: retry_final)
qed

subsection \<open>The exits of the loop\<close>

lemma iteration_Done_exit:
  "iteration task random opts s = Done r s' \<Longrightarrow> r \<noteq> Some Unexpected \<and> r \<noteq> Some TimedOut"
  by (auto simp: iteration_def catch_block_def record_event_def elapse_def Let_def
      split: promise.splits sum.splits option.splits if_splits prod.splits)

lemma retryPromise_not_TimedOut:
  "retryPromise task random opts s = (r, s') \<Longrightarrow> r \<noteq> Some TimedOut"
proof (induction task random opts s rule: retryPromise.induct)
  case (1 task random opts s)
  show ?case
  proof (cases "number_le (attempt s) (retries opts)")
    case False
    with "1.prems" show ?thesis
      by (auto simp: retryPromise.simps [of task random opts s])
  next
    case True
    show ?thesis
    proof (cases "iteration task random opts s")
      case (Done r1 s1)
      with True "1.prems" iteration_Done_exit [OF Done] show ?thesis
        by (simp add: retryPromise.simps [of task random opts s])
    next
      case (Again s1)
      from True Again "1.prems" have "retryPromise task random opts s1 = (r, s')"
        by (simp add: retryPromise.simps [of task random opts s])
      from "1.IH" [OF True Again this] show ?thesis .
    qed
  qed
qed





subsection \<open>The loop does not read the timeout\<close>

lemma catch_block_timeout:
  "catch_block random (opts\<lparr>timeout := x\<rparr>) error s = catch_block random opts error s"
  by (auto simp: catch_block_def Let_def retryCondition_of_def exponentialBackoff_of_def
      split: promise.splits sum.splits option.splits prod.splits)

lemma iteration_timeout:
  "iteration task random (opts\<lparr>timeout := x\<rparr>) s = iteration task random opts s"
  by (simp add: iteration_def catch_block_timeout Let_def split: promise.splits)

lemma retryPromise_timeout:
  "retryPromise task random (opts\<lparr>timeout := x\<rparr>) s = retryPromise task random opts s"
proof (induction task random opts s rule: retryPromise.induct)
  case (1 task random opts s)
  show ?case
  proof (cases "number_le (attempt s) (retries opts)")
    case False
    then show ?thesis
      by (simp add: retryPromise.simps [of task random opts s]
          retryPromise.simps [of task random "opts\<lparr>timeout := x\<rparr>" s])
  next
    case True
    show ?thesis
    proof (cases "iteration task random opts s")
      case (Done r1 s1)
      with True show ?thesis
        by (simp add: retryPromise.simps [of task random opts s]
            retryPromise.simps [of task random "opts\<lparr>timeout := x\<rparr>" s] iteration_timeout)
    next
      case (Again s1)
      with True "1.IH" [OF True Again] show ?thesis
        by (simp add: retryPromise.simps [of task random opts s]
            retryPromise.simps [of task random "opts\<lparr>timeout := x\<rparr>" s] iteration_timeout)
    qed
  qed
qed

text \<open>Unfolding a run on a concrete input.\<close>

lemmas run_defs = retry_def initial_def retryPromise.simps iteration_def catch_block_def
  record_event_def elapse_def race_def exponentialBackoff_of_def retryCondition_of_def

lemmas example_defs = always_fails_def fails_twice_def non_retriable_def slow_task_def
  rejects_undefined_def undefined_then_success_def
  only_retriable_def quiet_hook_def failing_fallback_def throwing_hook_def no_jitter_def
  half_jitter_def plain_def

lemmas trace_defs = hook_calls_def waits_def condition_calls_def

section \<open>The claims\<close>

subsection \<open>C1: at most \<open>retries + 1\<close> calls of the task\<close>

text \<open>
  C1. For every task, every sequence of random numbers and every options with
  \<open>retries = R \<ge> 0\<close>, one call of \<^verbatim>\<open>retry\<close> calls the task at most \<open>R + 1\<close> times, however the
  attempts end: fulfilled, rejected or pending, with callbacks that return or throw, with a
  timer or without. The count is that of the whole loop, which goes on in the background
  when the timer has won.
\<close>

theorem retry_invocations_bounded:
  assumes "retries opts = Number R" and "0 \<le> R"
  shows "int (calls (final (retry task random opts))) \<le> R + 1"
proof -
  obtain r s' where run: "retryPromise task random opts (initial opts) = (r, s')"
    by (cases "retryPromise task random opts (initial opts)")
  from calls_bound [OF run assms(1)] assms(2) have "int (calls s') \<le> R + 1"
    by (simp add: initial_def)
  with run show ?thesis
    by (simp add: retry_final)
qed

text \<open>The test of the persistent error: four calls with \<^verbatim>\<open>retries: 3\<close>.\<close>

theorem retry_invocations_bounded_witness:
  "int (calls (final (retry always_fails no_jitter plain))) \<le> 3 + 1 \<and>
   calls (final (retry always_fails no_jitter plain)) = 4"
proof -
  have "retries plain = Number 3"
    by (simp add: plain_def)
  from retry_invocations_bounded [OF this, of always_fails no_jitter]
  have "int (calls (final (retry always_fails no_jitter plain))) \<le> 3 + 1"
    by (simp add: plain_def)
  moreover have "calls (final (retry always_fails no_jitter plain)) = 4"
    by (simp add: run_defs example_defs)
  ultimately show ?thesis by simp
qed

subsection \<open>C2: a task that always fails\<close>

text \<open>
  C2. A task that fails on every call with an error that \<^verbatim>\<open>retryCondition\<close> accepts, with
  \<open>retries = R\<close> and no fallback, is to be called \<open>R + 1\<close> times, with \<open>R\<close> calls of \<^verbatim>\<open>onRetry\<close>,
  and the promise is to be rejected with the last error. The loop does not do this when the
  error is \<^verbatim>\<open>undefined\<close> (or \<^verbatim>\<open>null\<close>), which the default \<^verbatim>\<open>retryCondition\<close> accepts as it does
  every error: with \<^verbatim>\<open>retries: 3\<close> the first failure is to be retried, and line 49, which
  writes \<^verbatim>\<open>error.message\<close> to the console, throws a \<^verbatim>\<open>TypeError\<close>. The run ends after one call
  of the task, with no call of \<^verbatim>\<open>onRetry\<close>, rejected with the \<^verbatim>\<open>TypeError\<close> and not with the
  task's error. Lines 36 and 46 do throw such an error again as it is: with \<^verbatim>\<open>retries: 0\<close>
  the same task ends the run rejected with \<^verbatim>\<open>undefined\<close> itself.
\<close>

theorem undefined_error_ends_failing_run:
  "retryCondition_of (plain\<lparr>onRetry := Some quiet_hook\<rparr>) Undefined = Inr True \<and>
   outcome (retry rejects_undefined no_jitter (plain\<lparr>onRetry := Some quiet_hook\<rparr>)) =
     Some MessageTypeError \<and>
   map_option surfaced (outcome (retry rejects_undefined no_jitter (plain\<lparr>onRetry := Some quiet_hook\<rparr>))) =
     Some (Inl TypeError) \<and>
   calls (final (retry rejects_undefined no_jitter (plain\<lparr>onRetry := Some quiet_hook\<rparr>))) = 1 \<and>
   hook_calls (trace (final (retry rejects_undefined no_jitter (plain\<lparr>onRetry := Some quiet_hook\<rparr>)))) = [] \<and>
   outcome (retry rejects_undefined no_jitter (plain\<lparr>retries := Number 0\<rparr>)) =
     Some (Exhausted Undefined)"
  by (simp add: run_defs example_defs trace_defs)

text \<open>
  For errors that are objects the loop does what C2 says. Let \<open>retries = R \<ge> 0\<close> with no
  fallback, let the first \<open>R\<close> calls of the task fail with errors that are retried
  (\<open>is_retried\<close>) and let the call after them fail with an error \<open>e\<close> that \<^verbatim>\<open>retryCondition\<close>
  accepts. Unless the timer wins the race, the task is called exactly \<open>R + 1\<close> times,
  \<^verbatim>\<open>onRetry\<close> (when there is one) is called exactly \<open>R\<close> times, with the attempt numbers
  \<open>1, \<dots>, R\<close> and the errors of the first \<open>R\<close> calls, so not for the last failure, and the
  promise is rejected with \<open>e\<close> itself.
\<close>

lemma always_failing_run:
  assumes "retries opts = Number R" and "0 \<le> R" and "fallback opts = None"
    and "\<forall>k < nat R. is_retried task opts k"
    and "task (nat R) = Rejects e d" and "retryCondition_of opts e = Inr True"
    and "outcome (retry task random opts) \<noteq> Some TimedOut"
  shows "calls (final (retry task random opts)) = nat R + 1 \<and>
    outcome (retry task random opts) = Some (Exhausted e) \<and>
    map_option surfaced (outcome (retry task random opts)) = Some (Inl (Reason e)) \<and>
    map (\<lambda>(n, x). (n, Some x)) (hook_calls (trace (final (retry task random opts)))) =
      (case onRetry opts of
         None \<Rightarrow> []
       | Some hook \<Rightarrow> map (\<lambda>i. (int i + 1, rejection_of (task i))) [0..<nat R])"
proof -
  from assms(2) have "int (nat R) \<le> R" by simp
  from retried_from_initial [where random = random, OF assms(4) assms(1) this] assms(2)
  obtain s where
    run: "retryPromise task random opts (initial opts) = retryPromise task random opts s" and
    att: "attempt s = R" and cal: "calls s = nat R" and
    facts: "retried_trace task opts 0 (nat R) (trace s)"
    by auto
  from assms(5) cal have rej: "task (calls s) = Rejects e d" by simp
  have last: "retryPromise task random opts s = (Some (Exhausted e),
      s\<lparr>attempt := attempt s + 1, calls := calls s + 1, clock := clock s + max 0 d,
        trace := trace s @ [TaskCall, ConditionCall e]\<rparr>)"
    using att assms(1,3)
      iteration_exhausted [where task = task and s = s and random = random, OF rej assms(6) assms(1) att]
    by (simp add: retryPromise.simps [of task random opts s])
  have hooks: "hook_calls [TaskCall, ConditionCall e] = []"
    by (simp add: hook_calls_def)
  from retry_outcome [OF assms(7)] retry_final [of task random opts] run last cal facts hooks
  show ?thesis
    by (simp add: retried_trace_def split: option.splits)
qed


text \<open>
  The tests of the persistent error and of the \<^verbatim>\<open>onRetry\<close> callback: four calls of the task,
  three of the hook, with the attempt numbers 1, 2 and 3.
\<close>

lemma always_failing_run_example:
  "calls (final (retry always_fails no_jitter (plain\<lparr>onRetry := Some quiet_hook\<rparr>))) = 4 \<and>
   outcome (retry always_fails no_jitter (plain\<lparr>onRetry := Some quiet_hook\<rparr>)) =
     Some (Exhausted (Object ''Persistent error'')) \<and>
   hook_calls (trace (final (retry always_fails no_jitter (plain\<lparr>onRetry := Some quiet_hook\<rparr>)))) =
     [(1, Object ''Persistent error''), (2, Object ''Persistent error''), (3, Object ''Persistent error'')]"
proof -
  let ?opts = "plain\<lparr>onRetry := Some quiet_hook\<rparr>"
  have h0: "retries ?opts = Number 3" and h1: "(0::int) \<le> 3" and h2: "fallback ?opts = None"
    by (simp_all add: plain_def)
  have h3: "\<forall>k < nat 3. is_retried always_fails ?opts k"
    by (simp add: is_retried_def example_defs retryCondition_of_def)
  have h4: "always_fails (nat 3) = Rejects (Object ''Persistent error'') 0"
    by (simp add: always_fails_def)
  have h5: "retryCondition_of ?opts (Object ''Persistent error'') = Inr True"
    by (simp add: retryCondition_of_def plain_def)
  have h6: "outcome (retry always_fails no_jitter ?opts) \<noteq> Some TimedOut"
    by (simp add: run_defs example_defs)
  have tr: "hook_calls (trace (final (retry always_fails no_jitter ?opts))) =
     [(1, Object ''Persistent error''), (2, Object ''Persistent error''), (3, Object ''Persistent error'')]"
    by (simp add: run_defs example_defs trace_defs)
  from always_failing_run [OF h0 h1 h2 h3 h4 h5 h6] tr
  show ?thesis
    by (simp add: plain_def)
qed

subsection \<open>C3: success on attempt \<open>k\<close>\<close>

text \<open>
  C3. A task that succeeds on attempt \<open>k \<le> retries + 1\<close>, after failures that
  \<^verbatim>\<open>retryCondition\<close> accepts, is to end the run with the result of attempt \<open>k\<close>, after \<open>k\<close>
  calls of the task and \<open>k - 1\<close> calls of \<^verbatim>\<open>onRetry\<close>. The loop does not do this for \<open>k \<ge> 2\<close>
  when an earlier failure is a rejection with \<^verbatim>\<open>undefined\<close> (or \<^verbatim>\<open>null\<close>): a task that rejects
  with \<^verbatim>\<open>undefined\<close> once and would succeed on its second call is called once, and the run
  ends rejected with the \<^verbatim>\<open>TypeError\<close> of line 49, with no call of \<^verbatim>\<open>onRetry\<close>.
\<close>

theorem undefined_error_ends_run_before_success:
  "undefined_then_success 0 = Rejects Undefined 0 \<and>
   retryCondition_of (plain\<lparr>onRetry := Some quiet_hook\<rparr>) Undefined = Inr True \<and>
   undefined_then_success 1 = Resolves ''Success'' 0 \<and>
   outcome (retry undefined_then_success no_jitter (plain\<lparr>onRetry := Some quiet_hook\<rparr>)) =
     Some MessageTypeError \<and>
   map_option surfaced
     (outcome (retry undefined_then_success no_jitter (plain\<lparr>onRetry := Some quiet_hook\<rparr>))) =
     Some (Inl TypeError) \<and>
   calls (final (retry undefined_then_success no_jitter (plain\<lparr>onRetry := Some quiet_hook\<rparr>))) = 1 \<and>
   hook_calls (trace (final (retry undefined_then_success no_jitter (plain\<lparr>onRetry := Some quiet_hook\<rparr>)))) = []"
  by (simp add: run_defs example_defs trace_defs)

text \<open>
  For errors that are objects, and for \<open>k = 1\<close>, the loop does what C3 says. Let the task
  succeed with \<open>v\<close> on its call of index \<open>n\<close>, the attempt \<open>k = n + 1\<close>, with
  \<open>k \<le> retries + 1\<close>, after \<open>n\<close> failures that are retried. Unless the timer wins the race,
  \<^verbatim>\<open>retry\<close> returns \<open>v\<close>, the task is called exactly \<open>k\<close> times and that call is the last event
  of the run, there are \<open>k - 1\<close> waits, and \<^verbatim>\<open>onRetry\<close> is called exactly \<open>k - 1\<close> times. For
  \<open>k = 1\<close> this is one call of the task, no wait and no call of the hook.
\<close>

lemma success_on_attempt:
  assumes "retries opts = Number R" and "int n \<le> R"
    and "\<forall>i<n. is_retried task opts i"
    and "task n = Resolves v d"
    and "outcome (retry task random opts) \<noteq> Some TimedOut"
  shows "outcome (retry task random opts) = Some (Success v) \<and>
    map_option surfaced (outcome (retry task random opts)) = Some (Inr v) \<and>
    calls (final (retry task random opts)) = n + 1 \<and>
    count_list (trace (final (retry task random opts))) TaskCall = n + 1 \<and>
    last (trace (final (retry task random opts))) = TaskCall \<and>
    length (waits (trace (final (retry task random opts)))) = n \<and>
    map (\<lambda>(k, x). (k, Some x)) (hook_calls (trace (final (retry task random opts)))) =
      (case onRetry opts of
         None \<Rightarrow> []
       | Some hook \<Rightarrow> map (\<lambda>i. (int i + 1, rejection_of (task i))) [0..<n])"
proof -
  from retried_from_initial [where random = random, OF assms(3) assms(1) assms(2)]
  obtain s where
    run: "retryPromise task random opts (initial opts) = retryPromise task random opts s" and
    att: "attempt s = int n" and cal: "calls s = n" and
    facts: "retried_trace task opts 0 n (trace s)"
    by auto
  from assms(4) cal have res: "task (calls s) = Resolves v d" by simp
  have last: "retryPromise task random opts s = (Some (Success v),
      s\<lparr>calls := calls s + 1, clock := clock s + max 0 d, trace := trace s @ [TaskCall]\<rparr>)"
    using att assms(1,2) iteration_success [where task = task and s = s and random = random, OF res]
    by (simp add: retryPromise.simps [of task random opts s])
  have proj: "hook_calls [TaskCall] = []" "waits [TaskCall] = []"
    by (simp_all add: hook_calls_def waits_def)
  from retry_outcome [OF assms(5)] retry_final [of task random opts] run last cal facts proj
  show ?thesis
    by (simp add: retried_trace_def split: option.splits)
qed


text \<open>
  The scenario of the specification: the task fails twice and succeeds on its third call;
  the hook is called with the attempt numbers 1 and 2.
\<close>

lemma success_on_attempt_example:
  "outcome (retry fails_twice no_jitter (plain\<lparr>onRetry := Some quiet_hook\<rparr>)) = Some (Success ''Success'') \<and>
   calls (final (retry fails_twice no_jitter (plain\<lparr>onRetry := Some quiet_hook\<rparr>))) = 3 \<and>
   hook_calls (trace (final (retry fails_twice no_jitter (plain\<lparr>onRetry := Some quiet_hook\<rparr>)))) =
     [(1, Object ''Transient error''), (2, Object ''Transient error'')] \<and>
   waits (trace (final (retry fails_twice no_jitter (plain\<lparr>onRetry := Some quiet_hook\<rparr>)))) = [100, 100]"
proof -
  let ?opts = "plain\<lparr>onRetry := Some quiet_hook\<rparr>"
  have h0: "retries ?opts = Number 3" and h1: "int 2 \<le> 3"
    by (simp_all add: plain_def)
  have h2: "\<forall>i<2. is_retried fails_twice ?opts i"
    by (simp add: is_retried_def example_defs retryCondition_of_def)
  have h3: "fails_twice 2 = Resolves ''Success'' 0"
    by (simp add: fails_twice_def)
  have h4: "outcome (retry fails_twice no_jitter ?opts) \<noteq> Some TimedOut"
    by (simp add: run_defs example_defs)
  have tr: "hook_calls (trace (final (retry fails_twice no_jitter ?opts))) =
      [(1, Object ''Transient error''), (2, Object ''Transient error'')]"
    "waits (trace (final (retry fails_twice no_jitter ?opts))) = [100, 100]"
    by (simp_all add: run_defs example_defs trace_defs)
  from success_on_attempt [OF h0 h1 h2 h3 h4] tr
  show ?thesis
    by simp
qed

subsection \<open>C4: an error that the retry condition rejects\<close>

text \<open>
  C4. Let the call of index \<open>n\<close> of the task fail with \<open>e\<close>, after \<open>n\<close> failures that are
  retried, and let \<^verbatim>\<open>retryCondition\<close> return false for \<open>e\<close>. Whatever budget is left
  (\<open>n \<le> retries\<close>), unless the timer wins the race the promise is rejected with \<open>e\<close> itself;
  this failure neither increments the counter (it is \<open>n\<close> at the end) nor waits (there are
  \<open>n\<close> waits) nor calls the hook, and the call of \<^verbatim>\<open>retryCondition\<close> is the last event of the
  run. For \<open>n = 0\<close>, a first failure: one call of the task, one call of
  \<^verbatim>\<open>retryCondition\<close>, no call of the hook.
\<close>

theorem non_retryable_aborts:
  assumes "retries opts = Number R" and "int n \<le> R"
    and "\<forall>i<n. is_retried task opts i"
    and "task n = Rejects e d"
    and "retryCondition_of opts e = Inr False"
    and "outcome (retry task random opts) \<noteq> Some TimedOut"
  shows "outcome (retry task random opts) = Some (NonRetryable e) \<and>
    map_option surfaced (outcome (retry task random opts)) = Some (Inl (Reason e)) \<and>
    calls (final (retry task random opts)) = n + 1 \<and>
    attempt (final (retry task random opts)) = int n \<and>
    length (waits (trace (final (retry task random opts)))) = n \<and>
    length (condition_calls (trace (final (retry task random opts)))) = n + 1 \<and>
    last (trace (final (retry task random opts))) = ConditionCall e \<and>
    length (hook_calls (trace (final (retry task random opts)))) =
      (case onRetry opts of None \<Rightarrow> 0 | Some hook \<Rightarrow> n)"
proof -
  from retried_from_initial [where random = random, OF assms(3) assms(1) assms(2)]
  obtain s where
    run: "retryPromise task random opts (initial opts) = retryPromise task random opts s" and
    att: "attempt s = int n" and cal: "calls s = n" and
    facts: "retried_trace task opts 0 n (trace s)"
    by auto
  from assms(4) cal have rej: "task (calls s) = Rejects e d" by simp
  have last: "retryPromise task random opts s = (Some (NonRetryable e),
      s\<lparr>calls := calls s + 1, clock := clock s + max 0 d, trace := trace s @ [TaskCall, ConditionCall e]\<rparr>)"
    using att assms(1,2)
      iteration_non_retryable [where task = task and s = s and random = random, OF rej assms(5)]
    by (simp add: retryPromise.simps [of task random opts s])
  have proj: "hook_calls [TaskCall, ConditionCall e] = []" "waits [TaskCall, ConditionCall e] = []"
    "condition_calls [TaskCall, ConditionCall e] = [e]"
    by (simp_all add: hook_calls_def waits_def condition_calls_def)
  note len = retried_trace_lengths [OF facts]
  from retry_outcome [OF assms(6)] retry_final [of task random opts] run last cal att len proj
  show ?thesis
    by simp
qed

text \<open>
  The test of the retry condition: it accepts only \<^verbatim>\<open>Retriable error\<close>, the task throws
  \<^verbatim>\<open>Non-retriable error\<close>.
\<close>

theorem non_retryable_aborts_witness:
  "outcome (retry non_retriable no_jitter (plain\<lparr>retryCondition := Some only_retriable\<rparr>)) =
     Some (NonRetryable (Object ''Non-retriable error'')) \<and>
   calls (final (retry non_retriable no_jitter (plain\<lparr>retryCondition := Some only_retriable\<rparr>))) = 1 \<and>
   attempt (final (retry non_retriable no_jitter (plain\<lparr>retryCondition := Some only_retriable\<rparr>))) = 0 \<and>
   trace (final (retry non_retriable no_jitter (plain\<lparr>retryCondition := Some only_retriable\<rparr>))) =
     [TaskCall, ConditionCall (Object ''Non-retriable error'')]"
proof -
  let ?opts = "plain\<lparr>retryCondition := Some only_retriable\<rparr>"
  have h0: "retries ?opts = Number 3" and h1: "int 0 \<le> 3"
    by (simp_all add: plain_def)
  have h2: "\<forall>i<0. is_retried non_retriable ?opts i"
    by simp
  have h3: "non_retriable 0 = Rejects (Object ''Non-retriable error'') 0"
    by (simp add: non_retriable_def)
  have h4: "retryCondition_of ?opts (Object ''Non-retriable error'') = Inr False"
    by (simp add: retryCondition_of_def only_retriable_def)
  have h5: "outcome (retry non_retriable no_jitter ?opts) \<noteq> Some TimedOut"
    by (simp add: run_defs example_defs)
  have tr: "trace (final (retry non_retriable no_jitter ?opts)) =
      [TaskCall, ConditionCall (Object ''Non-retriable error'')]"
    by (simp add: run_defs example_defs)
  from non_retryable_aborts [OF h0 h1 h2 h3 h4 h5] tr
  show ?thesis
    by simp
qed

subsection \<open>C5: the fallback\<close>

text \<open>
  C5. Let \<open>retries = R \<ge> 0\<close> with a fallback, and let the retries be exhausted: the first
  \<open>R\<close> calls of the task fail and are retried, the call after them fails with an error that
  \<^verbatim>\<open>retryCondition\<close> accepts. Unless the timer wins the race, the fallback is called exactly
  once, as the last event of the run, and the promise settles as the fallback's promise does:
  fulfilled with its value, or rejected with its error.
\<close>

theorem fallback_after_exhaustion:
  assumes "retries opts = Number R" and "0 \<le> R" and "fallback opts = Some fb"
    and "\<forall>k < nat R. is_retried task opts k"
    and "task (nat R) = Rejects e d" and "retryCondition_of opts e = Inr True"
    and "outcome (retry task random opts) \<noteq> Some TimedOut"
  shows "count_list (trace (final (retry task random opts))) FallbackCall = 1 \<and>
    last (trace (final (retry task random opts))) = FallbackCall \<and>
    calls (final (retry task random opts)) = nat R + 1 \<and>
    outcome (retry task random opts) =
      (case fb of Resolves v t \<Rightarrow> Some (FallbackValue v)
       | Rejects x t \<Rightarrow> Some (FallbackError x) | Pending \<Rightarrow> None) \<and>
    map_option surfaced (outcome (retry task random opts)) =
      (case fb of Resolves v t \<Rightarrow> Some (Inr v)
       | Rejects x t \<Rightarrow> Some (Inl (Reason x)) | Pending \<Rightarrow> None)"
proof -
  from assms(2) have "int (nat R) \<le> R" by simp
  from retried_from_initial [where random = random, OF assms(4) assms(1) this] assms(2)
  obtain s where
    run: "retryPromise task random opts (initial opts) = retryPromise task random opts s" and
    att: "attempt s = R" and cal: "calls s = nat R" and
    facts: "retried_trace task opts 0 (nat R) (trace s)"
    by auto
  from assms(5) cal have rej: "task (calls s) = Rejects e d" by simp
  have last: "retryPromise task random opts s =
      (case fb of Resolves v t \<Rightarrow> Some (FallbackValue v)
         | Rejects x t \<Rightarrow> Some (FallbackError x) | Pending \<Rightarrow> None,
       s\<lparr>attempt := attempt s + 1, calls := calls s + 1,
          clock := clock s + max 0 d +
            (case fb of Resolves v t \<Rightarrow> max 0 t | Rejects x t \<Rightarrow> max 0 t | Pending \<Rightarrow> 0),
          trace := trace s @ [TaskCall, ConditionCall e, FallbackCall]\<rparr>)"
    using att assms(1,3)
      iteration_exhausted [where task = task and s = s and random = random, OF rej assms(6) assms(1) att]
    by (simp add: retryPromise.simps [of task random opts s])
  from facts have cnt: "count_list (trace s) FallbackCall = 0"
    by (simp add: retried_trace_def)
  from retry_outcome [OF assms(7)] retry_final [of task random opts] run last cal cnt
  show ?thesis
    by (simp split: promise.splits)
qed

text \<open>A task that always fails, with a fallback that returns \<^verbatim>\<open>Fallback data\<close>.\<close>

theorem fallback_after_exhaustion_witness:
  "outcome (retry always_fails no_jitter (plain\<lparr>fallback := Some (Resolves ''Fallback data'' 0)\<rparr>)) =
     Some (FallbackValue ''Fallback data'') \<and>
   count_list (trace (final (retry always_fails no_jitter
     (plain\<lparr>fallback := Some (Resolves ''Fallback data'' 0)\<rparr>)))) FallbackCall = 1 \<and>
   calls (final (retry always_fails no_jitter (plain\<lparr>fallback := Some (Resolves ''Fallback data'' 0)\<rparr>))) = 4"
proof -
  let ?opts = "plain\<lparr>fallback := Some (Resolves ''Fallback data'' 0)\<rparr>"
  have h0: "retries ?opts = Number 3" and h1: "(0::int) \<le> 3"
    and h2: "fallback ?opts = Some (Resolves ''Fallback data'' 0)"
    by (simp_all add: plain_def)
  have h3: "\<forall>k < nat 3. is_retried always_fails ?opts k"
    by (simp add: is_retried_def example_defs retryCondition_of_def)
  have h4: "always_fails (nat 3) = Rejects (Object ''Persistent error'') 0"
    by (simp add: always_fails_def)
  have h5: "retryCondition_of ?opts (Object ''Persistent error'') = Inr True"
    by (simp add: retryCondition_of_def plain_def)
  have h6: "outcome (retry always_fails no_jitter ?opts) \<noteq> Some TimedOut"
    by (simp add: run_defs example_defs)
  from fallback_after_exhaustion [OF h0 h1 h2 h3 h4 h5 h6]
  show ?thesis
    by (simp add: plain_def)
qed

subsection \<open>C6: the delays of the exponential backoff\<close>

text \<open>
  C6. With \<^verbatim>\<open>exponentialBackoff: true\<close> and \<^verbatim>\<open>delay: 100\<close>, for every task and every sequence
  of random numbers in \<open>[0, 1)\<close>, that is of jitters in \<open>[0, 100)\<close>, the delays \<open>ws\<close> of the
  waits of a run are non-decreasing, and the delay of index \<open>i\<close> (the \<open>i + 1\<close>-th delay) is at
  least \<open>100 * 2 ^ i\<close> and less than \<open>100 * 2 ^ (i + 1) + 100\<close>. Doubling and jitter come
  after the wait: the first delay is 100, and each later delay is twice the one before plus
  the jitter drawn after that wait.
\<close>

theorem backoff_delays_grow:
  assumes "exponentialBackoff opts = Some True" and "delay opts = 100"
    and "\<forall>j. 0 \<le> random j \<and> random j < 1"
    and "ws = waits (trace (final (retry task random opts)))"
  shows "sorted ws \<and>
    (\<forall>i < length ws. 100 * 2 ^ i \<le> ws ! i \<and> ws ! i < 100 * 2 ^ Suc i + 100) \<and>
    (\<forall>i. Suc i < length ws \<longrightarrow> ws ! Suc i = ws ! i * 2 + random i * 100) \<and>
    ws = backoff_delays random 100 0 (length ws)"
proof -
  obtain r s' where run: "retryPromise task random opts (initial opts) = (r, s')"
    by (cases "retryPromise task random opts (initial opts)")
  from assms(1) have "exponentialBackoff_of opts"
    by (simp add: exponentialBackoff_of_def)
  from waits_backoff [OF run this] assms(2) obtain n where
    "waits (trace s') = backoff_delays random 100 0 n"
    by (auto simp: initial_def)
  with run assms(4) have ws: "ws = backoff_delays random 100 0 n"
    by (simp add: retry_final)
  from assms(3) have nn: "\<forall>j. 0 \<le> random j" by blast
  have "sorted ws"
    unfolding ws by (rule backoff_delays_sorted [OF nn]) simp
  moreover have "\<forall>i < length ws. 100 * 2 ^ i \<le> ws ! i \<and> ws ! i < 100 * 2 ^ Suc i + 100"
  proof (intro allI impI)
    fix i assume "i < length ws"
    with ws have "i < n" by simp
    from backoff_delays_bounds [OF assms(3) this, of 100 0] ws
    have "100 * 2 ^ i \<le> ws ! i" and "ws ! i + 100 \<le> 200 * 2 ^ i"
      by simp_all
    then show "100 * 2 ^ i \<le> ws ! i \<and> ws ! i < 100 * 2 ^ Suc i + 100"
      by simp
  qed
  moreover have "\<forall>i. Suc i < length ws \<longrightarrow> ws ! Suc i = ws ! i * 2 + random i * 100"
    unfolding ws using backoff_delays_step [of _ n random 100 0] by simp
  moreover have "ws = backoff_delays random 100 0 (length ws)"
    using ws by simp
  ultimately show ?thesis by blast
qed

text \<open>A task that always fails, with every jitter 50: the three waits are 100, 250 and 550.\<close>

theorem backoff_delays_grow_witness:
  "waits (trace (final (retry always_fails half_jitter (plain\<lparr>exponentialBackoff := Some True\<rparr>)))) =
     [100, 250, 550] \<and>
   sorted [100, 250, 550 :: real]"
proof -
  let ?opts = "plain\<lparr>exponentialBackoff := Some True\<rparr>"
  have h1: "exponentialBackoff ?opts = Some True" and h2: "delay ?opts = 100"
    by (simp_all add: plain_def)
  have h3: "\<forall>j. 0 \<le> half_jitter j \<and> half_jitter j < 1"
    by (simp add: half_jitter_def)
  have ws: "[100, 250, 550] = waits (trace (final (retry always_fails half_jitter ?opts)))"
    by (simp add: run_defs example_defs trace_defs)
  from backoff_delays_grow [OF h1 h2 h3 ws] ws
  show ?thesis
    by simp
qed

subsection \<open>C7: the timeout\<close>

text \<open>
  C7. Let a timeout \<open>t\<close> be set (\<open>t\<close> is not 0, so the timer is armed) and let the timer elapse
  before the loop's promise settles: the loop's promise stays pending, or it settles at a
  time after \<open>t\<close>. Then the promise of \<^verbatim>\<open>retry\<close> is rejected with the error
  \<^verbatim>\<open>Retry timeout exceeded\<close>, which \<^verbatim>\<open>retry\<close> makes itself and which is no value thrown by the
  task, a callback or the fallback; this holds whatever the loop's own result \<open>r\<close> is, a
  success of the task included, and however many attempts are left.
\<close>

theorem timer_wins:
  assumes "timeout opts = Some t" and "t \<noteq> 0"
    and "retryPromise task random opts (initial opts) = (r, s)"
    and "r = None \<or> max 0 t < clock s"
  shows "outcome (retry task random opts) = Some TimedOut \<and>
    map_option surfaced (outcome (retry task random opts)) = Some (Inl (Error ''Retry timeout exceeded'')) \<and>
    (\<forall>e. map_option surfaced (outcome (retry task random opts)) \<noteq> Some (Inl (Reason e))) \<and>
    timer (retry task random opts) = Some t"
  using assms by (auto simp: retry_def race_def split: option.splits)

text \<open>
  The test of the timeout: \<^verbatim>\<open>timeout: 150\<close> and a task that takes 200 milliseconds. The loop
  itself ends with the task's value at time 200; \<^verbatim>\<open>retry\<close> is rejected by the timer, after one
  call of the task.
\<close>

theorem timer_wins_witness:
  "retryPromise slow_task no_jitter (plain\<lparr>timeout := Some 150\<rparr>) (initial (plain\<lparr>timeout := Some 150\<rparr>)) =
     (Some (Success ''Done''),
      \<lparr>attempt = 0, currentDelay = 100, calls = 1, draws = 0, clock = 200, trace = [TaskCall]\<rparr>) \<and>
   outcome (retry slow_task no_jitter (plain\<lparr>timeout := Some 150\<rparr>)) = Some TimedOut \<and>
   calls (final (retry slow_task no_jitter (plain\<lparr>timeout := Some 150\<rparr>))) = 1"
proof -
  let ?opts = "plain\<lparr>timeout := Some 150\<rparr>"
  let ?s = "\<lparr>attempt = 0, currentDelay = 100, calls = 1, draws = 0, clock = 200, trace = [TaskCall]\<rparr> :: string state"
  have h1: "timeout ?opts = Some 150" and h2: "(150::real) \<noteq> 0"
    by simp_all
  have h3: "retryPromise slow_task no_jitter ?opts (initial ?opts) = (Some (Success ''Done''), ?s)"
    by (simp add: run_defs example_defs)
  have h4: "Some (Success ''Done'' :: (string, string) exit) = None \<or> max 0 150 < clock ?s"
    by simp
  have c: "calls (final (retry slow_task no_jitter ?opts)) = 1"
    by (simp add: run_defs example_defs)
  from timer_wins [OF h1 h2 h3 h4] h3 c
  show ?thesis
    by simp
qed

subsection \<open>C8: the attempt counter\<close>

text \<open>
  C8, as the specification states it, fails: the counter is not incremented only for the
  failures that are followed by another attempt. Line 39 increments it before line 40 tests
  whether the retries are exhausted, so the last, exhausting failure increments it too. With
  \<^verbatim>\<open>retries: 0\<close> and a task that fails, the run ends after one call of the task, with no wait
  and no second attempt, and the counter is 1, while no failure was retried.
\<close>

theorem attempt_counter_counterexample:
  "outcome (retry always_fails no_jitter (plain\<lparr>retries := Number 0\<rparr>)) =
     Some (Exhausted (Object ''Persistent error'')) \<and>
   calls (final (retry always_fails no_jitter (plain\<lparr>retries := Number 0\<rparr>))) = 1 \<and>
   waits (trace (final (retry always_fails no_jitter (plain\<lparr>retries := Number 0\<rparr>)))) = [] \<and>
   attempt (final (retry always_fails no_jitter (plain\<lparr>retries := Number 0\<rparr>))) = 1 \<and>
   attempt (final (retry always_fails no_jitter (plain\<lparr>retries := Number 0\<rparr>))) \<noteq>
     int (retried_failures (trace (final (retry always_fails no_jitter (plain\<lparr>retries := Number 0\<rparr>)))))"
  by (simp add: run_defs example_defs trace_defs retried_failures_def)

text \<open>
  C8, amended. The counter starts at 0, and at the end of every run it is the number of
  failures for which \<^verbatim>\<open>retryCondition\<close> returned true, the exhausting one included: it is
  incremented once for each of them, and not for a success or for a failure that
  \<^verbatim>\<open>retryCondition\<close> rejects.
\<close>

theorem attempt_counts_accepted_failures:
  "attempt (initial opts) = 0 \<and>
   attempt (final (retry task random opts)) =
     int (accepted opts (trace (final (retry task random opts))))"
proof -
  obtain r s' where run: "retryPromise task random opts (initial opts) = (r, s')"
    by (cases "retryPromise task random opts (initial opts)")
  from retryPromise_accepted [OF run] have "attempt s' = int (accepted opts (trace s'))"
    by (simp add: initial_def accepted_def)
  with run show ?thesis
    by (simp add: retry_final initial_def)
qed

text \<open>A task that always fails, with \<^verbatim>\<open>retries: 3\<close>: four calls, four accepted failures, counter 4.\<close>

theorem attempt_counts_accepted_failures_witness:
  "attempt (final (retry always_fails no_jitter plain)) = 4 \<and>
   accepted plain (trace (final (retry always_fails no_jitter plain))) = 4 \<and>
   calls (final (retry always_fails no_jitter plain)) = 4"
proof -
  have "accepted plain (trace (final (retry always_fails no_jitter plain))) = 4"
    by (simp add: run_defs example_defs trace_defs accepted_def)
  moreover have "calls (final (retry always_fails no_jitter plain)) = 4"
    by (simp add: run_defs example_defs)
  ultimately show ?thesis
    using attempt_counts_accepted_failures [of plain always_fails no_jitter] by simp
qed

subsection \<open>C9: the throw after the loop\<close>




subsection \<open>C10: a timeout of 0\<close>

text \<open>
  C10. With \<^verbatim>\<open>timeout: 0\<close> a run is the run with no timeout: no timer is armed, the outcome
  is the loop's own and never the timeout error.
\<close>

theorem timeout_zero_is_no_timeout:
  "retry task random (opts\<lparr>timeout := Some 0\<rparr>) = retry task random (opts\<lparr>timeout := None\<rparr>) \<and>
   timer (retry task random (opts\<lparr>timeout := Some 0\<rparr>)) = None \<and>
   outcome (retry task random (opts\<lparr>timeout := Some 0\<rparr>)) \<noteq> Some TimedOut \<and>
   outcome (retry task random (opts\<lparr>timeout := Some 0\<rparr>)) =
     fst (retryPromise task random opts (initial opts))"
proof -
  obtain r s' where run: "retryPromise task random opts (initial opts) = (r, s')"
    by (cases "retryPromise task random opts (initial opts)")
  have i: "initial (opts\<lparr>timeout := x\<rparr>) = initial opts" for x
    by (simp add: initial_def)
  from retryPromise_not_TimedOut [OF run] run show ?thesis
    by (simp add: retry_def retryPromise_timeout i)
qed

text \<open>With \<^verbatim>\<open>timeout: 0\<close> the task that takes 200 milliseconds succeeds.\<close>

theorem timeout_zero_is_no_timeout_witness:
  "outcome (retry slow_task no_jitter (plain\<lparr>timeout := Some 0\<rparr>)) = Some (Success ''Done'') \<and>
   timer (retry slow_task no_jitter (plain\<lparr>timeout := Some 0\<rparr>)) = None \<and>
   clock (final (retry slow_task no_jitter (plain\<lparr>timeout := Some 0\<rparr>))) = 200"
proof -
  have "retry slow_task no_jitter (plain\<lparr>timeout := None\<rparr>) =
      \<lparr>outcome = Some (Success ''Done''), timer = None,
       final = \<lparr>attempt = 0, currentDelay = 100, calls = 1, draws = 0, clock = 200, trace = [TaskCall]\<rparr>\<rparr>"
    by (simp add: run_defs example_defs)
  with timeout_zero_is_no_timeout [of slow_task no_jitter plain] show ?thesis
    by simp
qed

end
